theory Spec2Isabelle
  imports Main "HOL-Library.Code_Target_Nat"
begin

section \<open>The text file processor of \<^verbatim>\<open>src/app.py\<close>\<close>

text \<open>
  The module has one function with logic, \<^verbatim>\<open>process_text_file\<close>, and three helpers
  (\<^verbatim>\<open>rtrim\<close>, \<^verbatim>\<open>is_blank\<close>, \<^verbatim>\<open>format_float_custom\<close>). The rest of the file is the Streamlit
  page around it. The embedding below follows the function statement by statement.

  Python strings are modelled as \<^typ>\<open>string\<close>: a character is a code point below 256, so
  the development speaks about texts within Latin-1. Python's unbounded \<^verbatim>\<open>int\<close> is \<^typ>\<open>int\<close>,
  the target set \<^verbatim>\<open>set[int]\<close> is \<^typ>\<open>int set\<close>. An exception is a value of type \<open>error\<close>
  on the left of a sum.
\<close>

subsection \<open>Exceptions\<close>

datatype error = ValueError | IndexError

definition bind_err :: "error + 'a \<Rightarrow> ('a \<Rightarrow> error + 'b) \<Rightarrow> error + 'b" where
  "bind_err r f = (case r of Inl e \<Rightarrow> Inl e | Inr v \<Rightarrow> f v)"

text \<open>\<^verbatim>\<open>try: r  except ValueError: d\<close>: only a \<^verbatim>\<open>ValueError\<close> is caught.\<close>

definition except_ValueError :: "error + 'a \<Rightarrow> 'a \<Rightarrow> error + 'a" where
  "except_ValueError r d =
     (case r of Inr v \<Rightarrow> Inr v
      | Inl e \<Rightarrow> (if e = ValueError then Inr d else Inl e))"

subsection \<open>The string and list operations of Python that the function calls\<close>

definition code_point :: "char \<Rightarrow> nat" where
  "code_point c = of_char c"

text \<open>\<^verbatim>\<open>str.isspace\<close> on one character: the white space of Unicode below 256.\<close>

definition space_char :: "char \<Rightarrow> bool" where
  "space_char c =
     (let n = code_point c
      in (9 \<le> n \<and> n \<le> 13) \<or> (28 \<le> n \<and> n \<le> 32) \<or> n = 133 \<or> n = 160)"

text \<open>\<^verbatim>\<open>s.isspace()\<close>: false on the empty string.\<close>

definition isspace :: "string \<Rightarrow> bool" where
  "isspace s = (s \<noteq> [] \<and> list_all space_char s)"

text \<open>\<^verbatim>\<open>s.strip()\<close> and \<^verbatim>\<open>s.rstrip(' ')\<close>.\<close>

definition strip :: "string \<Rightarrow> string" where
  "strip s = rev (dropWhile space_char (rev (dropWhile space_char s)))"

definition rstrip_space :: "string \<Rightarrow> string" where
  "rstrip_space s = rev (dropWhile (\<lambda>c. c = CHR '' '') (rev s))"

definition startswith :: "string \<Rightarrow> string \<Rightarrow> bool" where
  "startswith s p = (take (length p) s = p)"

text \<open>\<^verbatim>\<open>s[a:b]\<close> for \<open>0 \<le> a \<le> b\<close>: a slice is cut to the string, it never raises.\<close>

definition slice :: "'a list \<Rightarrow> nat \<Rightarrow> nat \<Rightarrow> 'a list" where
  "slice s a b = take (b - a) (drop a s)"

text \<open>\<^verbatim>\<open>s[i]\<close> and \<^verbatim>\<open>xs[i] = v\<close> for \<open>i \<ge> 0\<close>: out of range raises \<^verbatim>\<open>IndexError\<close>.\<close>

definition getitem :: "'a list \<Rightarrow> nat \<Rightarrow> error + 'a" where
  "getitem xs i = (if i < length xs then Inr (xs ! i) else Inl IndexError)"

definition setitem :: "'a list \<Rightarrow> nat \<Rightarrow> 'a \<Rightarrow> error + 'a list" where
  "setitem xs i v = (if i < length xs then Inr (xs[i := v]) else Inl IndexError)"

text \<open>\<^verbatim>\<open>xs.index(x)\<close>: the first position of \<open>x\<close>, \<^verbatim>\<open>ValueError\<close> when there is none.\<close>

fun index :: "'a list \<Rightarrow> 'a \<Rightarrow> error + nat" where
  "index [] x = Inl ValueError"
| "index (y # ys) x = (if y = x then Inr 0 else bind_err (index ys x) (\<lambda>i. Inr (Suc i)))"

text \<open>
  \<^verbatim>\<open>s.splitlines()\<close>: a line ends at \<^verbatim>\<open>\r\n\<close>, or at one of \<^verbatim>\<open>\n \v \f \r \x1c \x1d \x1e \x85\<close>;
  the line ends are dropped and a final line end opens no further line.
\<close>

definition line_boundary :: "char \<Rightarrow> bool" where
  "line_boundary c =
     (let n = code_point c in (10 \<le> n \<and> n \<le> 13) \<or> (28 \<le> n \<and> n \<le> 30) \<or> n = 133)"

fun splitlines_from :: "string \<Rightarrow> string \<Rightarrow> string list" where
  "splitlines_from cur [] = (if cur = [] then [] else [cur])"
| "splitlines_from cur [c] = (if line_boundary c then [cur] else [cur @ [c]])"
| "splitlines_from cur (c # d # cs) =
     (if code_point c = 13 \<and> code_point d = 10 then cur # splitlines_from [] cs
      else if line_boundary c then cur # splitlines_from [] (d # cs)
      else splitlines_from (cur @ [c]) (d # cs))"

definition splitlines :: "string \<Rightarrow> string list" where
  "splitlines s = splitlines_from [] s"

text \<open>\<^verbatim>\<open>sep.join(xs)\<close>.\<close>

fun join :: "string \<Rightarrow> string list \<Rightarrow> string" where
  "join sep [] = []"
| "join sep [x] = x"
| "join sep (x # y # ys) = x @ sep @ join sep (y # ys)"

subsection \<open>\<^verbatim>\<open>int(s)\<close> and \<^verbatim>\<open>float(s)\<close> on a string\<close>

definition is_digit :: "char \<Rightarrow> bool" where
  "is_digit c = (48 \<le> code_point c \<and> code_point c \<le> 57)"

definition digits_value :: "string \<Rightarrow> nat" where
  "digits_value ds = foldl (\<lambda>a c. 10 * a + (code_point c - 48)) 0 ds"

text \<open>
  Both conversions skip white space at the two ends. They see the characters
  \<^verbatim>\<open>\t \n \v \f \r\<close> and the blank as white space, and \<^verbatim>\<open>\x85\<close> and \<^verbatim>\<open>\xa0\<close>, which they
  replace by a blank first; \<^verbatim>\<open>\x1c\<close> to \<^verbatim>\<open>\x1f\<close> are not skipped (so they make the
  conversion fail).
\<close>

definition number_space :: "char \<Rightarrow> bool" where
  "number_space c =
     (let n = code_point c in (9 \<le> n \<and> n \<le> 13) \<or> n = 32 \<or> n = 133 \<or> n = 160)"

definition number_strip :: "string \<Rightarrow> string" where
  "number_strip s = rev (dropWhile number_space (rev (dropWhile number_space s)))"

text \<open>
  An underscore is allowed between two digits only; the accepted underscores are
  removed. The first argument is the character before.
\<close>

fun drop_underscores :: "char \<Rightarrow> string \<Rightarrow> string option" where
  "drop_underscores prev [] = (if prev = CHR ''_'' then None else Some [])"
| "drop_underscores prev (c # cs) =
     (if c = CHR ''_'' then (if is_digit prev then drop_underscores c cs else None)
      else if prev = CHR ''_'' \<and> \<not> is_digit c then None
      else map_option ((#) c) (drop_underscores c cs))"

definition split_sign :: "string \<Rightarrow> bool \<times> string" where
  "split_sign s =
     (case s of [] \<Rightarrow> (False, [])
      | c # cs \<Rightarrow> (if c = CHR ''-'' then (True, cs)
                   else if c = CHR ''+'' then (False, cs) else (False, s)))"

text \<open>\<^verbatim>\<open>int(s)\<close>, base 10: an optional sign and at least one digit.\<close>

definition py_int :: "string \<Rightarrow> error + int" where
  "py_int s =
     (case drop_underscores (CHR 0x00) (number_strip s) of
        None \<Rightarrow> Inl ValueError
      | Some t \<Rightarrow>
          (let (neg, ds) = split_sign t
           in if ds \<noteq> [] \<and> list_all is_digit ds
              then Inr (if neg then - int (digits_value ds) else int (digits_value ds))
              else Inl ValueError))"

text \<open>
  A Python \<^verbatim>\<open>float\<close> is an IEEE 754 binary64 number: \<open>Finite s m e\<close> is
  \<open>(-1)\<^sup>s \<sdot> m \<sdot> 2\<^sup>e\<close>, with the sign kept on zero.
\<close>

datatype pyfloat = Finite bool nat int | Infinity bool | NaN

definition round_half_even :: "nat \<Rightarrow> nat \<Rightarrow> nat" where
  "round_half_even n d =
     (let q = n div d; r = n mod d
      in if 2 * r < d then q
         else if d < 2 * r then q + 1
         else if even q then q else q + 1)"

fun bit_length :: "nat \<Rightarrow> nat" where
  "bit_length n = (if n = 0 then 0 else Suc (bit_length (n div 2)))"

declare bit_length.simps [simp del]

text \<open>\<open>floor_log2 n d\<close> is the \<open>k\<close> with \<open>2\<^sup>k \<le> n / d < 2\<^sup>k\<^sup>+\<^sup>1\<close>, for \<open>n, d > 0\<close>.\<close>

definition floor_log2 :: "nat \<Rightarrow> nat \<Rightarrow> int" where
  "floor_log2 n d =
     (let k = int (bit_length n) - int (bit_length d)
      in if (if 0 \<le> k then d * 2 ^ nat k \<le> n else d \<le> n * 2 ^ nat (- k)) then k else k - 1)"

text \<open>
  The binary64 number nearest to \<open>n / d\<close> (ties to even): 53 bits of mantissa, the
  exponent of the last bit between \<open>-1074\<close> and \<open>971\<close>, infinity beyond.
\<close>

definition to_binary64 :: "bool \<Rightarrow> nat \<Rightarrow> nat \<Rightarrow> pyfloat" where
  "to_binary64 s n d =
     (if n = 0 then Finite s 0 0
      else
        let e = max (floor_log2 n d - 52) (- 1074);
            m = (if 0 \<le> e then round_half_even n (d * 2 ^ nat e)
                 else round_half_even (n * 2 ^ nat (- e)) d);
            e' = (if m = 2 ^ 53 then e + 1 else e);
            m' = (if m = 2 ^ 53 then 2 ^ 52 else m)
        in if 971 < e' then Infinity s else Finite s m' e')"

definition ascii_lower :: "char \<Rightarrow> char" where
  "ascii_lower c =
     (if 65 \<le> code_point c \<and> code_point c \<le> 90 then char_of (code_point c + 32) else c)"

text \<open>
  A decimal literal: digits with an optional point, at least one digit, and an
  optional exponent with at least one digit. The result is the digits as a number,
  and the power of ten to multiply it with.
\<close>

definition parse_exponent :: "string \<Rightarrow> int option" where
  "parse_exponent s =
     (case s of [] \<Rightarrow> Some 0
      | c # cs \<Rightarrow>
          (if c = CHR ''e'' \<or> c = CHR ''E'' then
             (let (neg, ds) = split_sign cs
              in if ds \<noteq> [] \<and> list_all is_digit ds
                 then Some (if neg then - int (digits_value ds) else int (digits_value ds))
                 else None)
           else None))"

definition parse_decimal :: "string \<Rightarrow> (nat \<times> int) option" where
  "parse_decimal s =
     (let ip = takeWhile is_digit s; r1 = dropWhile is_digit s;
          fp = (case r1 of [] \<Rightarrow> [] | c # cs \<Rightarrow> if c = CHR ''.'' then takeWhile is_digit cs else []);
          r2 = (case r1 of [] \<Rightarrow> [] | c # cs \<Rightarrow> if c = CHR ''.'' then dropWhile is_digit cs else r1)
      in if ip @ fp = [] then None
         else map_option (\<lambda>x. (digits_value (ip @ fp), x - int (length fp))) (parse_exponent r2))"

text \<open>\<^verbatim>\<open>float(s)\<close>.\<close>

definition py_float :: "string \<Rightarrow> error + pyfloat" where
  "py_float s =
     (case drop_underscores (CHR 0x00) (number_strip s) of
        None \<Rightarrow> Inl ValueError
      | Some t \<Rightarrow>
          (let (neg, body) = split_sign t; low = map ascii_lower body
           in if low = ''inf'' \<or> low = ''infinity'' then Inr (Infinity neg)
              else if low = ''nan'' then Inr NaN
              else (case parse_decimal body of
                      None \<Rightarrow> Inl ValueError
                    | Some (digs, x) \<Rightarrow>
                        Inr (if 0 \<le> x then to_binary64 neg (digs * 10 ^ nat x) 1
                             else to_binary64 neg digs (10 ^ nat (- x))))))"

text \<open>\<^verbatim>\<open>value / 50.0\<close>: the quotient, rounded to binary64.\<close>

definition div_by_50 :: "pyfloat \<Rightarrow> pyfloat" where
  "div_by_50 x =
     (case x of
        Finite s m e \<Rightarrow>
          (if 0 \<le> e then to_binary64 s (m * 2 ^ nat e) 50
           else to_binary64 s m (50 * 2 ^ nat (- e)))
      | Infinity s \<Rightarrow> Infinity s
      | NaN \<Rightarrow> NaN)"

text \<open>
  \<^verbatim>\<open>f"{value:.6f}"\<close>: the sign, the integer part, a point and six digits, the value
  rounded to a multiple of \<open>10\<^sup>-\<^sup>6\<close> (ties to even); \<^verbatim>\<open>inf\<close>, \<^verbatim>\<open>-inf\<close> and \<^verbatim>\<open>nan\<close>
  otherwise.
\<close>

definition digit_char :: "nat \<Rightarrow> char" where
  "digit_char d = char_of (48 + d)"

fun decimal :: "nat \<Rightarrow> string" where
  "decimal n = (if n < 10 then [digit_char n] else decimal (n div 10) @ [digit_char (n mod 10)])"

declare decimal.simps [simp del]

definition six_digits :: "nat \<Rightarrow> string" where
  "six_digits k = map (\<lambda>i. digit_char (k div 10 ^ (5 - i) mod 10)) [0..<6]"

definition format_6f :: "pyfloat \<Rightarrow> string" where
  "format_6f x =
     (case x of
        Finite s m e \<Rightarrow>
          (let r = (if 0 \<le> e then m * 2 ^ nat e * 10 ^ 6
                    else round_half_even (m * 10 ^ 6) (2 ^ nat (- e)))
           in (if s then ''-'' else []) @ decimal (r div 10 ^ 6) @ ''.'' @ six_digits (r mod 10 ^ 6))
      | Infinity s \<Rightarrow> (if s then ''-inf'' else ''inf'')
      | NaN \<Rightarrow> ''nan'')"

subsection \<open>The helpers of the module\<close>

definition rtrim :: "string \<Rightarrow> string" where
  "rtrim s = rstrip_space s"

definition is_blank :: "string \<Rightarrow> bool" where
  "is_blank s = isspace s"

definition format_float_custom :: "pyfloat \<Rightarrow> string" where
  "format_float_custom v = (let formatted_str = format_6f v in take 6 formatted_str)"

subsection \<open>\<^verbatim>\<open>process_text_file\<close>\<close>

text \<open>The two bar numbers of a line: \<open>0\<close> stays when the conversion raises.\<close>

definition bar1_of :: "string \<Rightarrow> error + int" where
  "bar1_of line = except_ValueError (py_int (strip (slice line 0 6))) 0"

definition bar2_of :: "string \<Rightarrow> error + int" where
  "bar2_of line = except_ValueError (py_int (strip (slice line 7 12))) 0"

text \<open>
  The loop \<^verbatim>\<open>for i in range(6)\<close> that writes \<open>formatted\<close> into the six places from
  \<open>off\<close> on, a blank where \<open>formatted\<close> is shorter.
\<close>

fun write_field :: "string \<Rightarrow> nat \<Rightarrow> string \<Rightarrow> nat list \<Rightarrow> error + string" where
  "write_field modified_line off formatted [] = Inr modified_line"
| "write_field modified_line off formatted (i # is) =
     bind_err
       (if i < length formatted
        then bind_err (getitem formatted i) (\<lambda>c. setitem modified_line (off + i) c)
        else setitem modified_line (off + i) (CHR '' ''))
       (\<lambda>ml. write_field ml off formatted is)"

text \<open>
  One \<^verbatim>\<open>try\<close> block of the rewriting. Only \<^verbatim>\<open>float\<close> raises \<^verbatim>\<open>ValueError\<close> there, before
  any character is written, so the handler leaves \<open>modified_line\<close> as it was.
\<close>

definition recompute :: "string \<Rightarrow> nat \<Rightarrow> string \<Rightarrow> error + string" where
  "recompute modified_line off field =
     except_ValueError
       (bind_err (py_float (rtrim field)) (\<lambda>parsed.
          let v = div_by_50 parsed; formatted = format_float_custom v
          in write_field modified_line off formatted [0..<6]))
       modified_line"

text \<open>Lines 69 to 134: what the loop does with a line of the data that is no terminator.\<close>

definition rewrite_line :: "int set \<Rightarrow> string \<Rightarrow> error + string" where
  "rewrite_line bar_list_set line =
     (if 42 \<le> length line then
        bind_err (getitem line 16) (\<lambda>c.
          if c = CHR ''T'' then
            bind_err (bar1_of line) (\<lambda>bar1.
            bind_err (bar2_of line) (\<lambda>bar2.
              let bar_match = (bar1 \<in> bar_list_set \<or> bar2 \<in> bar_list_set);
                  field18_23 = slice line 17 23;
                  field24_29 = slice line 23 29;
                  field30_35 = slice line 29 35;
                  field36_41 = slice line 35 41
              in if bar_match then
                   bind_err (if is_blank field18_23 then recompute line 17 field24_29 else Inr line)
                     (\<lambda>ml1.
                   bind_err (if is_blank field30_35 then recompute ml1 29 field36_41 else Inr ml1)
                     (\<lambda>ml2. Inr ml2))
                 else Inr line))
          else Inr line)
      else Inr line)"

record loop_state =
  found_dcir :: bool
  processing_data :: bool
  header_lines_remaining :: int
  output_lines :: "string list"

datatype flow = Continue loop_state | Break loop_state

text \<open>The body of the loop over the lines, for one line.\<close>

definition loop_body :: "int set \<Rightarrow> string list \<Rightarrow> loop_state \<Rightarrow> string \<Rightarrow> error + flow" where
  "loop_body bar_list_set lines st line =
     (if \<not> found_dcir st then
        (if startswith line ''DCIR''
         then Inr (Continue (st\<lparr>found_dcir := True, header_lines_remaining := 2,
                                 output_lines := output_lines st @ [line]\<rparr>))
         else Inr (Continue (st\<lparr>output_lines := output_lines st @ [line]\<rparr>)))
      else if 0 < header_lines_remaining st then
        (let st1 = st\<lparr>output_lines := output_lines st @ [line],
                      header_lines_remaining := header_lines_remaining st - 1\<rparr>
         in Inr (Continue (if header_lines_remaining st1 = 0
                           then st1\<lparr>processing_data := True\<rparr> else st1)))
      else if startswith line ''99999'' then
        bind_err (index lines line) (\<lambda>current_line_index.
          Inr (Break (st\<lparr>output_lines :=
                 (output_lines st @ [line]) @ drop (current_line_index + 1) lines\<rparr>)))
      else
        bind_err (rewrite_line bar_list_set line) (\<lambda>out.
          Inr (Continue (st\<lparr>output_lines := output_lines st @ [out]\<rparr>))))"

fun loop :: "int set \<Rightarrow> string list \<Rightarrow> loop_state \<Rightarrow> string list \<Rightarrow> error + loop_state" where
  "loop bar_list_set lines st [] = Inr st"
| "loop bar_list_set lines st (line # rest) =
     (case loop_body bar_list_set lines st line of
        Inl e \<Rightarrow> Inl e
      | Inr (Continue st') \<Rightarrow> loop bar_list_set lines st' rest
      | Inr (Break st') \<Rightarrow> Inr st')"

definition initial_state :: loop_state where
  "initial_state =
     \<lparr>found_dcir = False, processing_data = False, header_lines_remaining = 0,
      output_lines = []\<rparr>"

text \<open>The lines that are joined at the end, and the function itself.\<close>

definition process_lines :: "string list \<Rightarrow> int set \<Rightarrow> error + string list" where
  "process_lines lines bar_list_set =
     bind_err (loop bar_list_set lines initial_state lines) (\<lambda>st. Inr (output_lines st))"

definition process_text_file :: "string \<Rightarrow> int set \<Rightarrow> error + string" where
  "process_text_file input_text bar_list_set =
     bind_err (process_lines (splitlines input_text) bar_list_set)
       (\<lambda>out. Inr (join ''\<newline>'' out))"

section \<open>Derived notions used in the proofs\<close>

text \<open>The six characters that the writing loop leaves in a window: \<open>formatted\<close>, cut or filled with blanks.\<close>

definition ljust6 :: "string \<Rightarrow> string" where
  "ljust6 f = take 6 (f @ replicate 6 (CHR '' ''))"

text \<open>The value a bar number takes: what \<^verbatim>\<open>int\<close> returned, or the \<open>0\<close> it was initialised with.\<close>

definition value_or_0 :: "error + int \<Rightarrow> int" where
  "value_or_0 r = (case r of Inl e \<Rightarrow> 0 | Inr v \<Rightarrow> v)"

text \<open>The value of \<^verbatim>\<open>bar_match\<close> for a line.\<close>

definition matches :: "int set \<Rightarrow> string \<Rightarrow> bool" where
  "matches ids line =
     (value_or_0 (py_int (strip (slice line 0 6))) \<in> ids \<or>
      value_or_0 (py_int (strip (slice line 7 12))) \<in> ids)"

text \<open>The content of a target window after its \<^verbatim>\<open>if is_blank(...)\<close> block, from the old content and the source window.\<close>

definition new_field :: "string \<Rightarrow> string \<Rightarrow> string" where
  "new_field old src =
     (if is_blank old
      then (case py_float (rtrim src) of
              Inl e \<Rightarrow> old
            | Inr v \<Rightarrow> ljust6 (format_float_custom (div_by_50 v)))
      else old)"

text \<open>The state of the loop once the header block is passed.\<close>

definition data_state :: "string list \<Rightarrow> loop_state" where
  "data_state out =
     \<lparr>found_dcir = True, processing_data = True, header_lines_remaining = 0,
      output_lines = out\<rparr>"

text \<open>A line with the windows at 17 and at 29 replaced.\<close>

definition with_windows :: "string \<Rightarrow> string \<Rightarrow> string \<Rightarrow> string" where
  "with_windows line a b = take 17 line @ a @ slice line 23 29 @ b @ drop 35 line"

section \<open>Properties of the operations\<close>

lemma upt_6: "[0..<6] = [0, 1, 2, 3, 4, 5::nat]"
  by code_simp

lemma code_point_digit_char: "d < 10 \<Longrightarrow> code_point (digit_char d) = 48 + d"
  by (simp add: code_point_def digit_char_def)

lemma space_char_digit_char: "d < 10 \<Longrightarrow> \<not> space_char (digit_char d)"
  by (simp add: space_char_def code_point_digit_char Let_def)

lemma bind_err_Inr [simp]: "bind_err (Inr v) f = f v"
  by (simp add: bind_err_def)

lemma bind_err_Inl [simp]: "bind_err (Inl e) f = Inl e"
  by (simp add: bind_err_def)

lemma decimal_head: "decimal n \<noteq> [] \<and> \<not> space_char (hd (decimal n))"
proof (induction n rule: decimal.induct)
  case (1 n)
  show ?case
  proof (cases "n < 10")
    case True
    then show ?thesis by (simp add: decimal.simps [of n] space_char_digit_char)
  next
    case False
    with 1 show ?thesis by (simp add: decimal.simps [of n])
  qed
qed

lemma space_char_minus: "\<not> space_char (CHR ''-'')" "\<not> space_char (CHR ''i'')" "\<not> space_char (CHR ''n'')"
  by (simp_all add: space_char_def code_point_def)

lemma write_field_fold:
  "list_all (\<lambda>i. off + i < length ml) is \<Longrightarrow>
   write_field ml off f is =
     Inr (fold (\<lambda>i m. m[off + i := (if i < length f then f ! i else CHR '' '')]) is ml)"
  by (induction "is" arbitrary: ml) (simp_all add: getitem_def setitem_def)

lemma format_6f_head: "format_6f v \<noteq> [] \<and> \<not> space_char (hd (format_6f v))"
proof (cases v)
  case (Finite s m e)
  define r where "r = (if 0 \<le> e then m * 2 ^ nat e * 10 ^ 6
                    else round_half_even (m * 10 ^ 6) (2 ^ nat (- e)))"
  have f: "format_6f v = (if s then ''-'' else []) @ decimal (r div 10 ^ 6) @ ''.'' @ six_digits (r mod 10 ^ 6)"
    unfolding Finite format_6f_def r_def Let_def by simp
  show ?thesis
    using decimal_head [of "r div 10 ^ 6"] unfolding f
    by (cases s) (simp_all add: space_char_minus)
next
  case (Infinity s)
  then show ?thesis by (cases s) (simp_all add: format_6f_def space_char_minus)
next
  case NaN
  then show ?thesis by (simp add: format_6f_def space_char_minus)
qed

lemma format_float_custom_head:
  "format_float_custom v \<noteq> [] \<and> \<not> space_char (hd (format_float_custom v))"
  using format_6f_head [of v] by (simp add: format_float_custom_def)

lemma length_ljust6 [simp]: "length (ljust6 f) = 6"
  by (simp add: ljust6_def)

lemma nth_ljust6: "k < 6 \<Longrightarrow> ljust6 f ! k = (if k < length f then f ! k else CHR '' '')"
  by (simp add: ljust6_def nth_append)

lemma write_field_window:
  assumes "off + 6 \<le> length ml"
  shows "write_field ml off f [0..<6] = Inr (take off ml @ ljust6 f @ drop (off + 6) ml)"
proof -
  let ?c = "\<lambda>i. if i < length f then f ! i else CHR '' ''"
  have "list_all (\<lambda>i. off + i < length ml) [0..<6]"
    using assms unfolding upt_6 by simp
  then have w: "write_field ml off f [0..<6] = Inr (fold (\<lambda>i m. m[off + i := ?c i]) [0..<6] ml)"
    by (rule write_field_fold)
  have "fold (\<lambda>i m. m[off + i := ?c i]) [0..<6] ml = take off ml @ ljust6 f @ drop (off + 6) ml"
    (is "?l = ?r")
  proof (rule nth_equalityI)
    show "length ?l = length ?r" using assms unfolding upt_6 by simp
  next
    fix j assume "j < length ?l"
    then have j: "j < length ml" unfolding upt_6 by simp
    have l: "?l = ml[off := ?c 0, off + 1 := ?c 1, off + 2 := ?c 2, off + 3 := ?c 3,
                     off + 4 := ?c 4, off + 5 := ?c 5]"
      unfolding upt_6 by simp
    consider "j < off" | k where "j = off + k" "k < 6" | "off + 6 \<le> j"
      by (metis add_diff_inverse_nat nat_add_left_cancel_less not_less)
    then show "?l ! j = ?r ! j"
    proof cases
      case 1
      then show ?thesis unfolding l using j assms by (simp add: nth_append)
    next
      case 2
      have r: "?r ! j = ?c k"
        using 2 assms by (simp add: nth_append nth_ljust6)
      have "k = 0 \<or> k = 1 \<or> k = 2 \<or> k = 3 \<or> k = 4 \<or> k = 5" using 2 by arith
      then have "?l ! j = ?c k"
        unfolding l using 2 j by (elim disjE) simp_all
      with r show ?thesis by simp
    next
      case 3
      then have "\<not> j - off < 6" "\<not> j < off" by arith+
      with 3 show ?thesis unfolding l using j assms by (simp add: nth_append)
    qed
  qed
  with w show ?thesis by simp
qed

lemma py_int_error: "py_int s = Inl e \<Longrightarrow> e = ValueError"
  by (auto simp add: py_int_def Let_def split: option.splits prod.splits if_splits)

lemma py_float_error: "py_float s = Inl e \<Longrightarrow> e = ValueError"
  by (auto simp add: py_float_def Let_def split: option.splits prod.splits if_splits)

lemma except_py_int: "except_ValueError (py_int s) 0 = Inr (value_or_0 (py_int s))"
  by (cases "py_int s") (auto simp add: except_ValueError_def value_or_0_def dest: py_int_error)

lemma bar1_of_eq: "bar1_of line = Inr (value_or_0 (py_int (strip (slice line 0 6))))"
  by (simp add: bar1_of_def except_py_int)

lemma bar2_of_eq: "bar2_of line = Inr (value_or_0 (py_int (strip (slice line 7 12))))"
  by (simp add: bar2_of_def except_py_int)

lemma recompute_eq:
  assumes "off + 6 \<le> length ml"
  shows "recompute ml off src =
           Inr (case py_float (rtrim src) of
                  Inl e \<Rightarrow> ml
                | Inr v \<Rightarrow> take off ml @ ljust6 (format_float_custom (div_by_50 v))
                            @ drop (off + 6) ml)"
proof (cases "py_float (rtrim src)")
  case (Inl e)
  then have "e = ValueError" by (rule py_float_error)
  with Inl show ?thesis by (simp add: recompute_def except_ValueError_def)
next
  case (Inr v)
  then show ?thesis
    by (simp add: recompute_def Let_def write_field_window [OF assms] except_ValueError_def)
qed

lemma drop_slice: "a \<le> b \<Longrightarrow> drop a l = slice l a b @ drop b l"
proof -
  assume ab: "a \<le> b"
  have "drop a l = take (b - a) (drop a l) @ drop (b - a) (drop a l)"
    by (simp only: append_take_drop_id)
  moreover have "drop (b - a) (drop a l) = drop b l" using ab by simp
  ultimately show ?thesis by (simp only: slice_def)
qed

lemma line_windows:
  "line = take 17 line @ slice line 17 23 @ slice line 23 29 @ slice line 29 35 @ drop 35 line"
proof -
  have "line = take 17 line @ drop 17 line" by simp
  also have "drop 17 line = slice line 17 23 @ drop 23 line" by (rule drop_slice) simp
  also have "drop 23 line = slice line 23 29 @ drop 29 line" by (rule drop_slice) simp
  also have "drop 29 line = slice line 29 35 @ drop 35 line" by (rule drop_slice) simp
  finally show ?thesis .
qed

lemma length_slice: "b \<le> length l \<Longrightarrow> length (slice l a b) = b - a"
  by (simp add: slice_def)

lemma length_new_field [simp]: "length old = 6 \<Longrightarrow> length (new_field old src) = 6"
  by (simp add: new_field_def split: sum.splits)

lemma rewrite_line_matched:
  assumes len: "42 \<le> length line" and t: "line ! 16 = CHR ''T''" and m: "matches ids line"
  shows "rewrite_line ids line =
           Inr (take 17 line @ new_field (slice line 17 23) (slice line 23 29)
                @ slice line 23 29 @ new_field (slice line 29 35) (slice line 35 41)
                @ drop 35 line)"
proof -
  define A where "A = new_field (slice line 17 23) (slice line 23 29)"
  define B where "B = new_field (slice line 29 35) (slice line 35 41)"
  define ml1 where "ml1 = take 17 line @ A @ drop 23 line"
  have lA: "length A = 6" and lB: "length B = 6"
    using len by (simp_all add: A_def B_def length_slice)
  have l1: "length ml1 = length line" using len lA by (simp add: ml1_def)
  have d23: "drop 23 line = slice line 23 29 @ slice line 29 35 @ drop 35 line"
    using drop_slice [of 23 29 line] drop_slice [of 29 35 line] by simp
  have step1: "(if is_blank (slice line 17 23) then recompute line 17 (slice line 23 29)
                else Inr line) = Inr ml1"
  proof (cases "is_blank (slice line 17 23)")
    case True
    have "17 + 6 \<le> length line" using len by simp
    from recompute_eq [OF this] True show ?thesis
      by (cases "py_float (rtrim (slice line 23 29))")
         (simp_all add: ml1_def A_def new_field_def drop_slice [of 17 23 line, symmetric])
  next
    case False
    then show ?thesis
      by (simp add: ml1_def A_def new_field_def drop_slice [of 17 23 line, symmetric])
  qed
  have t29: "take 29 ml1 = take 17 line @ A @ slice line 23 29"
    using len lA by (simp add: ml1_def slice_def)
  have d35: "drop 35 ml1 = drop 35 line"
    using len lA by (simp add: ml1_def)
  have d29: "drop 29 ml1 = slice line 29 35 @ drop 35 line"
    using len lA by (simp add: ml1_def drop_slice [of 29 35 line, symmetric])
  have step2: "(if is_blank (slice line 29 35) then recompute ml1 29 (slice line 35 41)
                else Inr ml1) = Inr (take 29 ml1 @ B @ drop 35 ml1)"
  proof (cases "is_blank (slice line 29 35)")
    case True
    have "29 + 6 \<le> length ml1" using len l1 by simp
    from recompute_eq [OF this] True show ?thesis
    proof (cases "py_float (rtrim (slice line 35 41))")
      case (Inl e)
      have "ml1 = take 29 ml1 @ drop 29 ml1" by simp
      with Inl True \<open>29 + 6 \<le> length ml1\<close> show ?thesis
        by (simp add: recompute_eq B_def new_field_def d29 d35)
    next
      case (Inr v)
      with True \<open>29 + 6 \<le> length ml1\<close> show ?thesis
        by (simp add: recompute_eq B_def new_field_def)
    qed
  next
    case False
    have "ml1 = take 29 ml1 @ drop 29 ml1" by simp
    with False show ?thesis by (simp add: B_def new_field_def d29 d35)
  qed
  have g: "getitem line 16 = Inr (CHR ''T'')" using len t by (simp add: getitem_def)
  have "rewrite_line ids line = Inr (take 29 ml1 @ B @ drop 35 ml1)"
    using len m unfolding rewrite_line_def matches_def
    by (simp add: g bar1_of_eq bar2_of_eq Let_def step1 step2)
  then show ?thesis by (simp add: t29 d35 A_def B_def)
qed

lemma rewrite_line_other:
  assumes "\<not> (42 \<le> length line \<and> line ! 16 = CHR ''T'' \<and> matches ids line)"
  shows "rewrite_line ids line = Inr line"
  using assms unfolding rewrite_line_def matches_def
  by (auto simp add: getitem_def bar1_of_eq bar2_of_eq Let_def)

lemma rewrite_line_total: "\<exists>out. rewrite_line ids line = Inr out"
  using rewrite_line_matched [of line ids] rewrite_line_other [of line ids] by blast

lemma index_total: "x \<in> set xs \<Longrightarrow> \<exists>i. index xs x = Inr i"
  by (induction xs) auto

lemma loop_body_total:
  "line \<in> set lines \<Longrightarrow> \<exists>fl. loop_body ids lines st line = Inr fl"
  using index_total [of line lines] rewrite_line_total [of ids line]
  by (auto simp add: loop_body_def Let_def)

lemma loop_total:
  "set rest \<subseteq> set lines \<Longrightarrow> \<exists>st'. loop ids lines st rest = Inr st'"
proof (induction rest arbitrary: st)
  case Nil
  show ?case by simp
next
  case (Cons line rest)
  then have "line \<in> set lines" by simp
  then obtain fl where fl: "loop_body ids lines st line = Inr fl"
    using loop_body_total by blast
  show ?case
  proof (cases fl)
    case (Continue st1)
    with fl Cons show ?thesis by simp
  next
    case (Break st1)
    with fl show ?thesis by simp
  qed
qed

lemma loop_preamble:
  "\<not> found_dcir st \<Longrightarrow> list_all (\<lambda>l. \<not> startswith l ''DCIR'') pre \<Longrightarrow>
   loop ids lines st (pre @ rest) = loop ids lines (st\<lparr>output_lines := output_lines st @ pre\<rparr>) rest"
proof (induction pre arbitrary: st)
  case Nil
  show ?case by simp
next
  case (Cons l pre)
  have b: "loop_body ids lines st l = Inr (Continue (st\<lparr>output_lines := output_lines st @ [l]\<rparr>))"
    using Cons.prems by (simp add: loop_body_def)
  have "loop ids lines st ((l # pre) @ rest)
        = loop ids lines (st\<lparr>output_lines := output_lines st @ [l]\<rparr>) (pre @ rest)"
    by (simp add: b)
  also have "\<dots> = loop ids lines
       ((st\<lparr>output_lines := output_lines st @ [l]\<rparr>)
          \<lparr>output_lines := output_lines (st\<lparr>output_lines := output_lines st @ [l]\<rparr>) @ pre\<rparr>) rest"
    using Cons.prems by (intro Cons.IH) simp_all
  finally show ?case by simp
qed

lemma loop_header:
  assumes "\<not> found_dcir st" and "startswith hdr ''DCIR''"
  shows "loop ids lines st (hdr # h1 # h2 # rest)
         = loop ids lines (st\<lparr>found_dcir := True,
               output_lines := output_lines st @ [hdr, h1, h2],
               header_lines_remaining := 0, processing_data := True\<rparr>) rest"
  using assms by (simp add: loop_body_def Let_def)

lemma loop_data_line:
  assumes "found_dcir st" and "header_lines_remaining st \<le> 0"
    and "\<not> startswith line ''99999''" and "rewrite_line ids line = Inr out"
  shows "loop_body ids lines st line = Inr (Continue (st\<lparr>output_lines := output_lines st @ [out]\<rparr>))"
  using assms by (simp add: loop_body_def)

lemma process_lines_no_header:
  assumes "list_all (\<lambda>l. \<not> startswith l ''DCIR'') lines"
  shows "process_lines lines ids = Inr lines"
proof -
  have "loop ids lines initial_state (lines @ [])
        = loop ids lines (initial_state\<lparr>output_lines := output_lines initial_state @ lines\<rparr>) []"
    using assms by (intro loop_preamble) (simp_all add: initial_state_def)
  then show ?thesis by (simp add: process_lines_def initial_state_def)
qed

lemma process_lines_header:
  assumes "list_all (\<lambda>l. \<not> startswith l ''DCIR'') pre" and "startswith hdr ''DCIR''"
  shows "process_lines (pre @ hdr # h1 # h2 # rest) ids
         = bind_err (loop ids (pre @ hdr # h1 # h2 # rest) (data_state (pre @ [hdr, h1, h2])) rest)
             (\<lambda>st. Inr (output_lines st))"
proof -
  let ?lines = "pre @ hdr # h1 # h2 # rest"
  let ?st = "initial_state\<lparr>output_lines := output_lines initial_state @ pre\<rparr>"
  have "loop ids ?lines initial_state ?lines = loop ids ?lines ?st (hdr # h1 # h2 # rest)"
    using assms by (intro loop_preamble) (simp_all add: initial_state_def)
  also have "\<dots> = loop ids ?lines (data_state (pre @ [hdr, h1, h2])) rest"
    using assms by (subst loop_header) (simp_all add: initial_state_def data_state_def)
  finally show ?thesis by (simp add: process_lines_def)
qed

lemma ljust6_short: "length f \<le> 6 \<Longrightarrow> ljust6 f = f @ replicate (6 - length f) (CHR '' '')"
  by (simp add: ljust6_def)

lemma ljust6_format:
  "ljust6 (format_float_custom v)
   = take 6 (format_6f v) @ replicate (6 - length (take 6 (format_6f v))) (CHR '' '')"
  by (simp add: format_float_custom_def ljust6_short)

lemma ljust6_not_blank: "\<not> is_blank (ljust6 (format_float_custom v))"
proof -
  have h: "format_float_custom v \<noteq> []" "\<not> space_char (hd (format_float_custom v))"
    using format_float_custom_head [of v] by simp_all
  then obtain c cs where f: "format_float_custom v = c # cs" by (cases "format_float_custom v") auto
  with h have "\<not> space_char c" by simp
  then show ?thesis by (simp add: is_blank_def isspace_def ljust6_def f)
qed

lemma new_field_idem: "new_field (new_field old src) src = new_field old src"
proof (cases "is_blank old")
  case True
  show ?thesis
  proof (cases "py_float (rtrim src)")
    case (Inl e)
    with True show ?thesis by (simp add: new_field_def)
  next
    case (Inr v)
    with True have "new_field old src = ljust6 (format_float_custom (div_by_50 v))"
      by (simp add: new_field_def)
    then show ?thesis using ljust6_not_blank [of "div_by_50 v"] by (simp add: new_field_def)
  qed
next
  case False
  then show ?thesis by (simp add: new_field_def)
qed

lemma with_windows_same: "with_windows line (slice line 17 23) (slice line 29 35) = line"
  using line_windows [of line] by (simp add: with_windows_def)

lemma with_windows_parts:
  assumes "42 \<le> length line" and "length a = 6" and "length b = 6"
  shows "length (with_windows line a b) = length line"
    and "take 17 (with_windows line a b) = take 17 line"
    and "slice (with_windows line a b) 17 23 = a"
    and "slice (with_windows line a b) 23 29 = slice line 23 29"
    and "slice (with_windows line a b) 29 35 = b"
    and "slice (with_windows line a b) 35 41 = slice line 35 41"
    and "drop 35 (with_windows line a b) = drop 35 line"
  using assms by (simp_all add: with_windows_def slice_def)

lemma with_windows_nth:
  assumes "42 \<le> length line" and "length a = 6" and "length b = 6"
    and "j < length line" and "\<not> (17 \<le> j \<and> j < 23)" and "\<not> (29 \<le> j \<and> j < 35)"
  shows "with_windows line a b ! j = line ! j"
proof -
  consider "j < 17" | "23 \<le> j" "j < 29" | "35 \<le> j" using assms by linarith
  then show ?thesis
  proof cases
    case 1
    then show ?thesis using assms by (simp add: with_windows_def nth_append)
  next
    case 2
    then have "\<not> j < 17" "\<not> j - 17 < 6" "j - 17 - 6 < 6" "23 + (j - 17 - 6) = j" by arith+
    then show ?thesis using assms by (simp add: with_windows_def nth_append slice_def)
  next
    case 3
    then have "\<not> j < 17" "\<not> j - 17 < 6" "\<not> j - 17 - 6 < 6" "\<not> j - 17 - 6 - 6 < 6"
      "35 + (j - 17 - 6 - 6 - 6) = j" by arith+
    then show ?thesis using assms by (simp add: with_windows_def nth_append slice_def)
  qed
qed

lemma rewrite_line_windows:
  assumes "42 \<le> length line" and "line ! 16 = CHR ''T''" and "matches ids line"
  shows "rewrite_line ids line =
           Inr (with_windows line (new_field (slice line 17 23) (slice line 23 29))
                  (new_field (slice line 29 35) (slice line 35 41)))"
  using rewrite_line_matched [OF assms] by (simp add: with_windows_def)

lemma slice_take_17: "b \<le> 17 \<Longrightarrow> slice (take 17 l) a b = slice l a b"
  by (simp add: slice_def drop_take)

lemma matches_cong:
  assumes "take 17 l' = take 17 l"
  shows "matches ids l' = matches ids l"
proof -
  have "slice l' 0 6 = slice l 0 6"
    using slice_take_17 [of 6 l' 0] slice_take_17 [of 6 l 0] assms by simp
  moreover have "slice l' 7 12 = slice l 7 12"
    using slice_take_17 [of 12 l' 7] slice_take_17 [of 12 l 7] assms by simp
  ultimately show ?thesis by (simp add: matches_def)
qed

lemma startswith_cong:
  assumes "take 17 l' = take 17 l"
  shows "startswith l' ''99999'' = startswith l ''99999''"
proof -
  have "take 5 (take 17 l') = take 5 l'" "take 5 (take 17 l) = take 5 l" by simp_all
  with assms have e: "take 5 l' = take 5 l" by metis
  have n: "length ''99999'' = 5" by simp
  show ?thesis unfolding startswith_def n e ..
qed

lemma rewrite_line_idem:
  assumes "rewrite_line ids line = Inr out"
  shows "rewrite_line ids out = Inr out"
proof (cases "42 \<le> length line \<and> line ! 16 = CHR ''T'' \<and> matches ids line")
  case True
  then have len: "42 \<le> length line" and t: "line ! 16 = CHR ''T''" and m: "matches ids line"
    by simp_all
  define a where "a = new_field (slice line 17 23) (slice line 23 29)"
  define b where "b = new_field (slice line 29 35) (slice line 35 41)"
  have la: "length a = 6" and lb: "length b = 6"
    using len by (simp_all add: a_def b_def length_slice)
  have out: "with_windows line a b = out"
    using assms rewrite_line_windows [OF len t m] by (simp add: a_def b_def)
  have p1: "length out = length line" and p2: "take 17 out = take 17 line"
    and p3: "slice out 17 23 = a" and p4: "slice out 23 29 = slice line 23 29"
    and p5: "slice out 29 35 = b" and p6: "slice out 35 41 = slice line 35 41"
    and p7: "drop 35 out = drop 35 line"
    using with_windows_parts [OF len la lb] unfolding out by blast+
  have len': "42 \<le> length out" using len p1 by simp
  have "with_windows line a b ! 16 = line ! 16"
    using len la lb by (intro with_windows_nth) simp_all
  with t have t': "out ! 16 = CHR ''T''" unfolding out by simp
  have m': "matches ids out" using m matches_cong [OF p2, of ids] by simp
  have a': "new_field (slice out 17 23) (slice out 23 29) = a"
    unfolding p3 p4 by (simp only: a_def new_field_idem)
  have b': "new_field (slice out 29 35) (slice out 35 41) = b"
    unfolding p5 p6 by (simp only: b_def new_field_idem)
  have "with_windows out a b = take 17 line @ a @ slice line 23 29 @ b @ drop 35 line"
    by (simp only: with_windows_def p2 p4 p7)
  also have "\<dots> = out" using out by (simp only: with_windows_def)
  finally have w: "with_windows out a b = out" .
  show ?thesis
    using rewrite_line_windows [OF len' t' m'] by (simp only: a' b' w)
next
  case False
  then have "out = line" using assms rewrite_line_other [of line ids] by simp
  with False show ?thesis using rewrite_line_other [of line ids] by simp
qed

lemma matches_bars:
  assumes "bar1_of line = Inr bar1" and "bar2_of line = Inr bar2"
  shows "matches ids line = (bar1 \<in> ids \<or> bar2 \<in> ids)"
  using assms by (simp add: bar1_of_eq bar2_of_eq matches_def)

lemma loop_body_data:
  assumes "found_dcir st" and "header_lines_remaining st \<le> 0"
    and "\<not> startswith line ''99999''"
  shows "\<exists>out. rewrite_line ids line = Inr out \<and>
           loop_body ids lines st line
             = Inr (Continue (st\<lparr>output_lines := output_lines st @ [out]\<rparr>))"
proof -
  obtain out where out: "rewrite_line ids line = Inr out"
    using rewrite_line_total by blast
  from loop_data_line [OF assms out] out show ?thesis by blast
qed

lemma rewrite_line_slices:
  assumes "42 \<le> length line" and "line ! 16 = CHR ''T''" and "matches ids line"
    and "rewrite_line ids line = Inr out"
  shows "slice out 17 23 = new_field (slice line 17 23) (slice line 23 29)"
    and "slice out 29 35 = new_field (slice line 29 35) (slice line 35 41)"
    and "length out = length line"
    and "\<And>j. j < length line \<Longrightarrow> \<not> (17 \<le> j \<and> j < 23) \<Longrightarrow> \<not> (29 \<le> j \<and> j < 35)
           \<Longrightarrow> out ! j = line ! j"
proof -
  define a where "a = new_field (slice line 17 23) (slice line 23 29)"
  define b where "b = new_field (slice line 29 35) (slice line 35 41)"
  have la: "length a = 6" and lb: "length b = 6"
    using assms(1) by (simp_all add: a_def b_def length_slice)
  have out: "out = with_windows line a b"
    using assms(4) rewrite_line_windows [OF assms(1-3)] by (simp add: a_def b_def)
  note p = with_windows_parts [OF assms(1) la lb]
  show "slice out 17 23 = new_field (slice line 17 23) (slice line 23 29)"
    unfolding out using p(3) by (simp add: a_def)
  show "slice out 29 35 = new_field (slice line 29 35) (slice line 35 41)"
    unfolding out using p(5) by (simp add: b_def)
  show "length out = length line" unfolding out by (rule p(1))
  fix j assume "j < length line" "\<not> (17 \<le> j \<and> j < 23)" "\<not> (29 \<le> j \<and> j < 35)"
  then show "out ! j = line ! j"
    unfolding out by (rule with_windows_nth [OF assms(1) la lb])
qed

lemma new_field_parsed:
  "is_blank old \<Longrightarrow> py_float (rtrim src) = Inr v \<Longrightarrow>
   new_field old src = take 6 (format_6f (div_by_50 v))
                        @ replicate (6 - length (take 6 (format_6f (div_by_50 v)))) (CHR '' '')"
  by (simp add: new_field_def ljust6_format)

lemma bit_length_numeral:
  "bit_length (numeral k) = Suc (bit_length (numeral k div 2))"
  "bit_length 0 = 0" "bit_length 1 = 1"
  by (simp_all add: bit_length.simps [of "numeral k"] bit_length.simps [of 0]
      bit_length.simps [of 1] bit_length.simps [of "Suc 0"])

lemma float_500: "py_float (rtrim ''   500'') = Inr (Finite False 8796093022208000 (- 44))"
  by code_simp

lemma div_500:
  "div_by_50 (Finite False 8796093022208000 (- 44)) = Finite False 5629499534213120 (- 49)"
  by (simp add: div_by_50_def to_binary64_def floor_log2_def round_half_even_def Let_def
      bit_length_numeral)

lemma format_10: "format_float_custom (Finite False 5629499534213120 (- 49)) = ''10.000''"
  by code_simp

lemma blank_6: "is_blank ''      ''"
  by code_simp

lemma new_field_500: "new_field ''      '' ''   500'' = ''10.000''"
  by (simp add: new_field_def blank_6 float_500 div_500 format_10 ljust6_def)

lemma float_250: "py_float (rtrim ''   250'') = Inr (Finite False 8796093022208000 (- 45))"
  by code_simp

lemma div_250:
  "div_by_50 (Finite False 8796093022208000 (- 45)) = Finite False 5629499534213120 (- 50)"
  by (simp add: div_by_50_def to_binary64_def floor_log2_def round_half_even_def Let_def
      bit_length_numeral)

lemma format_5: "format_float_custom (Finite False 5629499534213120 (- 50)) = ''5.0000''"
  by code_simp

lemma new_field_250: "new_field ''      '' ''   250'' = ''5.0000''"
  by (simp add: new_field_def blank_6 float_250 div_250 format_5 ljust6_def)

lemma new_field_kept: "new_field ''  1.00'' ''      '' = ''  1.00''"
proof -
  have "\<not> is_blank ''  1.00''" by code_simp
  then show ?thesis by (simp add: new_field_def)
qed

lemma process_lines_one_data_line:
  assumes "startswith hdr ''DCIR''" and "\<not> startswith line ''99999''"
    and "rewrite_line ids line = Inr out"
  shows "process_lines [hdr, h1, h2, line] ids = Inr [hdr, h1, h2, out]"
proof -
  have "process_lines ([] @ hdr # h1 # h2 # [line]) ids
        = bind_err (loop ids ([] @ hdr # h1 # h2 # [line]) (data_state ([] @ [hdr, h1, h2])) [line])
            (\<lambda>st. Inr (output_lines st))"
    using assms(1) by (intro process_lines_header) simp_all
  moreover have "loop_body ids [hdr, h1, h2, line] (data_state [hdr, h1, h2]) line
        = Inr (Continue ((data_state [hdr, h1, h2])
                 \<lparr>output_lines := output_lines (data_state [hdr, h1, h2]) @ [out]\<rparr>))"
    using assms(2,3) by (intro loop_data_line) (simp_all add: data_state_def)
  ultimately show ?thesis by (simp add: data_state_def)
qed

lemma int_100: "py_int (strip ''100   '') = Inr 100"
  by code_simp

lemma not_terminator_100:
  assumes "slice line 0 6 = ''100   ''"
  shows "\<not> startswith line ''99999''"
proof -
  have "take 5 line = take 5 (slice line 0 6)" by (simp add: slice_def)
  also have "\<dots> = ''100  ''" unfolding assms by simp
  finally have t: "take 5 line = ''100  ''" .
  have n: "length ''99999'' = 5" by simp
  show ?thesis unfolding startswith_def n t by simp
qed

lemma rewrite_line_concrete:
  assumes "42 \<le> length line" and "line ! 16 = CHR ''T''" and "matches ids line"
    and "slice line 17 23 = a" and "slice line 23 29 = c"
    and "slice line 29 35 = b" and "slice line 35 41 = d"
    and "new_field a c = a'" and "new_field b d = b'"
    and "with_windows line a' b' = out"
  shows "rewrite_line ids line = Inr out"
  using rewrite_line_windows [OF assms(1-3)] assms(4-10) by simp

lemma data_state_simps:
  "found_dcir (data_state out)" "header_lines_remaining (data_state out) \<le> 0"
  "output_lines (data_state out) = out"
  by (simp_all add: data_state_def)

lemma rewrite_example_1:
  "rewrite_line {100} ''100             T         500  1.00      x''
   = Inr ''100             T10.000   500  1.00      x''"
proof (rule rewrite_line_concrete)
  show "42 \<le> length ''100             T         500  1.00      x''" by simp
  show "''100             T         500  1.00      x'' ! 16 = CHR ''T''" by simp
  show "matches {100} ''100             T         500  1.00      x''" by code_simp
  show "slice ''100             T         500  1.00      x'' 17 23 = ''      ''" by code_simp
  show "slice ''100             T         500  1.00      x'' 23 29 = ''   500''" by code_simp
  show "slice ''100             T         500  1.00      x'' 29 35 = ''  1.00''" by code_simp
  show "slice ''100             T         500  1.00      x'' 35 41 = ''      ''" by code_simp
  show "new_field ''      '' ''   500'' = ''10.000''" by (rule new_field_500)
  show "new_field ''  1.00'' ''      '' = ''  1.00''" by (rule new_field_kept)
  show "with_windows ''100             T         500  1.00      x'' ''10.000'' ''  1.00''
        = ''100             T10.000   500  1.00      x''" by code_simp
qed

lemma rewrite_example_2:
  "rewrite_line {100} ''100             T         500         250x''
   = Inr ''100             T10.000   5005.0000   250x''"
proof (rule rewrite_line_concrete)
  show "42 \<le> length ''100             T         500         250x''" by simp
  show "''100             T         500         250x'' ! 16 = CHR ''T''" by simp
  show "matches {100} ''100             T         500         250x''" by code_simp
  show "slice ''100             T         500         250x'' 17 23 = ''      ''" by code_simp
  show "slice ''100             T         500         250x'' 23 29 = ''   500''" by code_simp
  show "slice ''100             T         500         250x'' 29 35 = ''      ''" by code_simp
  show "slice ''100             T         500         250x'' 35 41 = ''   250''" by code_simp
  show "new_field ''      '' ''   500'' = ''10.000''" by (rule new_field_500)
  show "new_field ''      '' ''   250'' = ''5.0000''" by (rule new_field_250)
  show "with_windows ''100             T         500         250x'' ''10.000'' ''5.0000''
        = ''100             T10.000   5005.0000   250x''" by code_simp
qed

lemma rewrite_example_3:
  "rewrite_line {0} ''BEAM   NODE     T         500  1.00      x''
   = Inr ''BEAM   NODE     T10.000   500  1.00      x''"
proof (rule rewrite_line_concrete)
  show "42 \<le> length ''BEAM   NODE     T         500  1.00      x''" by simp
  show "''BEAM   NODE     T         500  1.00      x'' ! 16 = CHR ''T''" by simp
  show "matches {0} ''BEAM   NODE     T         500  1.00      x''" by code_simp
  show "slice ''BEAM   NODE     T         500  1.00      x'' 17 23 = ''      ''" by code_simp
  show "slice ''BEAM   NODE     T         500  1.00      x'' 23 29 = ''   500''" by code_simp
  show "slice ''BEAM   NODE     T         500  1.00      x'' 29 35 = ''  1.00''" by code_simp
  show "slice ''BEAM   NODE     T         500  1.00      x'' 35 41 = ''      ''" by code_simp
  show "new_field ''      '' ''   500'' = ''10.000''" by (rule new_field_500)
  show "new_field ''  1.00'' ''      '' = ''  1.00''" by (rule new_field_kept)
  show "with_windows ''BEAM   NODE     T         500  1.00      x'' ''10.000'' ''  1.00''
        = ''BEAM   NODE     T10.000   500  1.00      x''" by code_simp
qed

lemma take_format_10: "take 6 (format_6f (Finite False 5629499534213120 (- 49))) = ''10.000''"
  using format_10 by (simp add: format_float_custom_def)

section \<open>The claims\<close>

text \<open>
  The data state of the loop is \<open>found_dcir\<close> with \<open>header_lines_remaining\<close> at most \<open>0\<close>:
  the two conditions under which the body reaches the test for the terminator.
\<close>

subsection \<open>The terminator and the lines after it\<close>

text \<open>
  Claim C1 fails on the code. The terminator at position 3 has a copy at position 1, in
  the header block; \<^verbatim>\<open>lines.index(line)\<close> returns 1, and the lines after position 1 are
  appended after the terminator instead of the one line after position 3.
\<close>

theorem terminator_copies_from_first_occurrence:
  "process_lines [''DCIR'', ''99999'', ''h2'', ''99999'', ''after''] {}
   = Inr [''DCIR'', ''99999'', ''h2'', ''99999'', ''h2'', ''99999'', ''after'']"
  by code_simp

subsection \<open>The number and order of the lines\<close>

text \<open>
  Claim C2 fails on the code. The six lines of the input give ten lines: the terminator
  at position 4 equals the line at position 0, so the five lines after position 0 are
  appended after it.
\<close>

theorem output_longer_than_input:
  "splitlines ''99999\<newline>DCIR\<newline>h1\<newline>h2\<newline>99999\<newline>x''
     = [''99999'', ''DCIR'', ''h1'', ''h2'', ''99999'', ''x'']
   \<and> process_lines [''99999'', ''DCIR'', ''h1'', ''h2'', ''99999'', ''x''] {}
     = Inr [''99999'', ''DCIR'', ''h1'', ''h2'', ''99999'', ''DCIR'', ''h1'', ''h2'', ''99999'', ''x'']
   \<and> process_text_file ''99999\<newline>DCIR\<newline>h1\<newline>h2\<newline>99999\<newline>x'' {}
     = Inr ''99999\<newline>DCIR\<newline>h1\<newline>h2\<newline>99999\<newline>DCIR\<newline>h1\<newline>h2\<newline>99999\<newline>x''"
  by code_simp

subsection \<open>Bar fields that are no integers\<close>

text \<open>
  Claim C3 as stated fails: with \<open>0\<close> in the target set, a line whose two bar fields are
  rejected by \<^verbatim>\<open>int\<close> matches, and its blank window at 17 is rewritten.
\<close>

theorem unparsed_bars_match_target_zero:
  "py_int (strip (slice ''BEAM   NODE     T         500  1.00      x'' 0 6)) = Inl ValueError
   \<and> py_int (strip (slice ''BEAM   NODE     T         500  1.00      x'' 7 12)) = Inl ValueError
   \<and> 42 \<le> length ''BEAM   NODE     T         500  1.00      x''
   \<and> ''BEAM   NODE     T         500  1.00      x'' ! 16 = CHR ''T''
   \<and> process_lines [''DCIR'', ''h1'', ''h2'', ''BEAM   NODE     T         500  1.00      x''] {0}
       = Inr [''DCIR'', ''h1'', ''h2'', ''BEAM   NODE     T10.000   500  1.00      x'']"
proof (intro conjI)
  show "py_int (strip (slice ''BEAM   NODE     T         500  1.00      x'' 0 6)) = Inl ValueError"
    by code_simp
  show "py_int (strip (slice ''BEAM   NODE     T         500  1.00      x'' 7 12)) = Inl ValueError"
    by code_simp
  show "42 \<le> length ''BEAM   NODE     T         500  1.00      x''" by simp
  show "''BEAM   NODE     T         500  1.00      x'' ! 16 = CHR ''T''" by simp
  show "process_lines [''DCIR'', ''h1'', ''h2'', ''BEAM   NODE     T         500  1.00      x''] {0}
       = Inr [''DCIR'', ''h1'', ''h2'', ''BEAM   NODE     T10.000   500  1.00      x'']"
  proof (rule process_lines_one_data_line [OF _ _ rewrite_example_3])
    show "startswith ''DCIR'' ''DCIR''" by code_simp
    show "\<not> startswith ''BEAM   NODE     T         500  1.00      x'' ''99999''" by code_simp
  qed
qed

text \<open>
  Claim C3, amended. On a line met in the data state with at least 42 characters and \<^verbatim>\<open>T\<close>
  at offset 16, a bar field that \<^verbatim>\<open>int\<close> rejects is read as \<open>0\<close>. When \<open>0\<close> is not in the
  target set, such a field adds nothing to the match: the line is emitted unchanged when
  the other bar number is no target, and so is a line both of whose bar fields are
  rejected.
\<close>

theorem unparsed_bar_is_zero:
  assumes "found_dcir st" and "header_lines_remaining st \<le> 0"
    and "\<not> startswith line ''99999''"
    and "42 \<le> length line" and "line ! 16 = CHR ''T''"
    and "0 \<notin> bar_list_set"
  shows "(\<forall>e. py_int (strip (slice line 0 6)) = Inl e \<longrightarrow> bar1_of line = Inr 0)
       \<and> (\<forall>e. py_int (strip (slice line 7 12)) = Inl e \<longrightarrow> bar2_of line = Inr 0)
       \<and> (\<forall>e bar2. py_int (strip (slice line 0 6)) = Inl e \<and> bar2_of line = Inr bar2
             \<and> bar2 \<notin> bar_list_set \<longrightarrow>
            loop_body bar_list_set lines st line
              = Inr (Continue (st\<lparr>output_lines := output_lines st @ [line]\<rparr>)))
       \<and> (\<forall>e bar1. py_int (strip (slice line 7 12)) = Inl e \<and> bar1_of line = Inr bar1
             \<and> bar1 \<notin> bar_list_set \<longrightarrow>
            loop_body bar_list_set lines st line
              = Inr (Continue (st\<lparr>output_lines := output_lines st @ [line]\<rparr>)))
       \<and> (\<forall>e1 e2. py_int (strip (slice line 0 6)) = Inl e1
             \<and> py_int (strip (slice line 7 12)) = Inl e2 \<longrightarrow>
            loop_body bar_list_set lines st line
              = Inr (Continue (st\<lparr>output_lines := output_lines st @ [line]\<rparr>)))"
proof -
  have b1: "bar1_of line = Inr 0" if "py_int (strip (slice line 0 6)) = Inl e" for e
    using that by (simp add: bar1_of_eq value_or_0_def)
  have b2: "bar2_of line = Inr 0" if "py_int (strip (slice line 7 12)) = Inl e" for e
    using that by (simp add: bar2_of_eq value_or_0_def)
  have same: "loop_body bar_list_set lines st line
                = Inr (Continue (st\<lparr>output_lines := output_lines st @ [line]\<rparr>))"
    if "bar1_of line = Inr x" "bar2_of line = Inr y" "x \<notin> bar_list_set" "y \<notin> bar_list_set"
    for x y
  proof -
    have "rewrite_line bar_list_set line = Inr line"
      using rewrite_line_other [of line bar_list_set] matches_bars [OF that(1,2), of bar_list_set]
        that(3,4) by simp
    with loop_data_line [OF assms(1-3)] show ?thesis by blast
  qed
  show ?thesis
  proof (intro conjI allI impI)
    fix e assume "py_int (strip (slice line 0 6)) = Inl e"
    then show "bar1_of line = Inr 0" by (rule b1)
  next
    fix e assume "py_int (strip (slice line 7 12)) = Inl e"
    then show "bar2_of line = Inr 0" by (rule b2)
  next
    fix e bar2
    assume "py_int (strip (slice line 0 6)) = Inl e \<and> bar2_of line = Inr bar2
             \<and> bar2 \<notin> bar_list_set"
    then show "loop_body bar_list_set lines st line
              = Inr (Continue (st\<lparr>output_lines := output_lines st @ [line]\<rparr>))"
      using same [of 0 bar2] b1 assms(6) by blast
  next
    fix e bar1
    assume "py_int (strip (slice line 7 12)) = Inl e \<and> bar1_of line = Inr bar1
             \<and> bar1 \<notin> bar_list_set"
    then show "loop_body bar_list_set lines st line
              = Inr (Continue (st\<lparr>output_lines := output_lines st @ [line]\<rparr>))"
      using same [of bar1 0] b2 assms(6) by blast
  next
    fix e1 e2
    assume "py_int (strip (slice line 0 6)) = Inl e1
             \<and> py_int (strip (slice line 7 12)) = Inl e2"
    then show "loop_body bar_list_set lines st line
              = Inr (Continue (st\<lparr>output_lines := output_lines st @ [line]\<rparr>))"
      using same [of 0 0] b1 b2 assms(6) by blast
  qed
qed

theorem unparsed_bar_is_zero_witness:
  "found_dcir (data_state [''DCIR'', ''h1'', ''h2''])
   \<and> header_lines_remaining (data_state [''DCIR'', ''h1'', ''h2'']) \<le> 0
   \<and> \<not> startswith ''BEAM   NODE     T         500  1.00      x'' ''99999''
   \<and> 42 \<le> length ''BEAM   NODE     T         500  1.00      x''
   \<and> ''BEAM   NODE     T         500  1.00      x'' ! 16 = CHR ''T''
   \<and> (0::int) \<notin> {7}
   \<and> py_int (strip (slice ''BEAM   NODE     T         500  1.00      x'' 0 6)) = Inl ValueError
   \<and> py_int (strip (slice ''BEAM   NODE     T         500  1.00      x'' 7 12)) = Inl ValueError
   \<and> loop_body {7} [''DCIR'', ''h1'', ''h2'', ''BEAM   NODE     T         500  1.00      x'']
        (data_state [''DCIR'', ''h1'', ''h2'']) ''BEAM   NODE     T         500  1.00      x''
       = Inr (Continue ((data_state [''DCIR'', ''h1'', ''h2''])
                \<lparr>output_lines := output_lines (data_state [''DCIR'', ''h1'', ''h2''])
                   @ [''BEAM   NODE     T         500  1.00      x'']\<rparr>))"
proof -
  let ?L = "''BEAM   NODE     T         500  1.00      x''"
  let ?st = "data_state [''DCIR'', ''h1'', ''h2'']"
  have h1: "found_dcir ?st" and h2: "header_lines_remaining ?st \<le> 0"
    by (rule data_state_simps)+
  have h3: "\<not> startswith ?L ''99999''" by code_simp
  have h4: "42 \<le> length ?L" by simp
  have h5: "?L ! 16 = CHR ''T''" by simp
  have h6: "(0::int) \<notin> {7}" by simp
  have p1: "py_int (strip (slice ?L 0 6)) = Inl ValueError" by code_simp
  have p2: "py_int (strip (slice ?L 7 12)) = Inl ValueError" by code_simp
  from unparsed_bar_is_zero [OF h1 h2 h3 h4 h5 h6, of "[''DCIR'', ''h1'', ''h2'', ?L]"] p1 p2
  have "loop_body {7} [''DCIR'', ''h1'', ''h2'', ?L] ?st ?L
       = Inr (Continue (?st\<lparr>output_lines := output_lines ?st @ [?L]\<rparr>))"
    by blast
  with h1 h2 h3 h4 h5 h6 p1 p2 show ?thesis by (intro conjI)
qed

subsection \<open>The recomputed window\<close>

text \<open>
  Claim C4. A line met in the data state that is no terminator, has at least 42
  characters, \<^verbatim>\<open>T\<close> at offset 16 and a bar number in the target set is emitted with its
  window at 17 recomputed when that window is blank and \<^verbatim>\<open>float\<close> accepts the window at
  23, right-trimmed, as \<open>v\<close>: the six characters are the first six of the rendering
  \<^verbatim>\<open>f"{v / 50.0:.6f}"\<close>, cut and not rounded, with blanks on the right when the rendering
  is shorter (\<^verbatim>\<open>inf\<close>, \<^verbatim>\<open>nan\<close>). The window at 29 depends on the window at 35 in the same way.
\<close>

theorem window_recomputed:
  assumes "found_dcir st" and "header_lines_remaining st \<le> 0"
    and "\<not> startswith line ''99999''"
    and "42 \<le> length line" and "line ! 16 = CHR ''T''"
    and "bar1_of line = Inr bar1" and "bar2_of line = Inr bar2"
    and "bar1 \<in> bar_list_set \<or> bar2 \<in> bar_list_set"
  shows "\<exists>out.
      loop_body bar_list_set lines st line
        = Inr (Continue (st\<lparr>output_lines := output_lines st @ [out]\<rparr>))
    \<and> (\<forall>v. is_blank (slice line 17 23) \<and> py_float (rtrim (slice line 23 29)) = Inr v \<longrightarrow>
          slice out 17 23
            = take 6 (format_6f (div_by_50 v))
              @ replicate (6 - length (take 6 (format_6f (div_by_50 v)))) (CHR '' ''))
    \<and> (\<forall>w. is_blank (slice line 29 35) \<and> py_float (rtrim (slice line 35 41)) = Inr w \<longrightarrow>
          slice out 29 35
            = take 6 (format_6f (div_by_50 w))
              @ replicate (6 - length (take 6 (format_6f (div_by_50 w)))) (CHR '' ''))"
proof -
  obtain out where out: "rewrite_line bar_list_set line = Inr out"
    and body: "loop_body bar_list_set lines st line
                 = Inr (Continue (st\<lparr>output_lines := output_lines st @ [out]\<rparr>))"
    using loop_body_data [OF assms(1-3)] by blast
  have m: "matches bar_list_set line"
    using matches_bars [OF assms(6,7)] assms(8) by simp
  note s = rewrite_line_slices [OF assms(4,5) m out]
  show ?thesis
    using body s(1) s(2) by (intro exI [of _ out]) (simp add: new_field_parsed)
qed

theorem window_recomputed_witness:
  "found_dcir (data_state [''DCIR'', ''h1'', ''h2''])
   \<and> header_lines_remaining (data_state [''DCIR'', ''h1'', ''h2'']) \<le> 0
   \<and> \<not> startswith ''100             T         500  1.00      x'' ''99999''
   \<and> 42 \<le> length ''100             T         500  1.00      x''
   \<and> ''100             T         500  1.00      x'' ! 16 = CHR ''T''
   \<and> bar1_of ''100             T         500  1.00      x'' = Inr 100
   \<and> bar2_of ''100             T         500  1.00      x'' = Inr 0
   \<and> ((100::int) \<in> {100} \<or> (0::int) \<in> {100})
   \<and> (\<exists>out.
        loop_body {100} [''DCIR'', ''h1'', ''h2'', ''100             T         500  1.00      x'']
          (data_state [''DCIR'', ''h1'', ''h2'']) ''100             T         500  1.00      x''
          = Inr (Continue ((data_state [''DCIR'', ''h1'', ''h2''])
                   \<lparr>output_lines := output_lines (data_state [''DCIR'', ''h1'', ''h2'']) @ [out]\<rparr>))
        \<and> slice out 17 23 = ''10.000'')"
proof -
  let ?L = "''100             T         500  1.00      x''"
  let ?st = "data_state [''DCIR'', ''h1'', ''h2'']"
  have h1: "found_dcir ?st" and h2: "header_lines_remaining ?st \<le> 0"
    by (rule data_state_simps)+
  have h3: "\<not> startswith ?L ''99999''" by code_simp
  have h4: "42 \<le> length ?L" by simp
  have h5: "?L ! 16 = CHR ''T''" by simp
  have h6: "bar1_of ?L = Inr 100" by code_simp
  have h7: "bar2_of ?L = Inr 0" by code_simp
  have h8: "(100::int) \<in> {100} \<or> (0::int) \<in> {100}" by simp
  have a: "is_blank (slice ?L 17 23)" by code_simp
  have c: "py_float (rtrim (slice ?L 23 29)) = Inr (Finite False 8796093022208000 (- 44))"
  proof -
    have "slice ?L 23 29 = ''   500''" by code_simp
    then show ?thesis by (simp only: float_500)
  qed
  from window_recomputed [OF h1 h2 h3 h4 h5 h6 h7 h8,
      of "[''DCIR'', ''h1'', ''h2'', ?L]"]
  obtain out where
    b: "loop_body {100} [''DCIR'', ''h1'', ''h2'', ?L] ?st ?L
          = Inr (Continue (?st\<lparr>output_lines := output_lines ?st @ [out]\<rparr>))"
    and w: "\<forall>v. is_blank (slice ?L 17 23) \<and> py_float (rtrim (slice ?L 23 29)) = Inr v \<longrightarrow>
          slice out 17 23
            = take 6 (format_6f (div_by_50 v))
              @ replicate (6 - length (take 6 (format_6f (div_by_50 v)))) (CHR '' '')"
    by blast
  from w a c have "slice out 17 23
      = take 6 (format_6f (div_by_50 (Finite False 8796093022208000 (- 44))))
        @ replicate (6 - length (take 6 (format_6f
            (div_by_50 (Finite False 8796093022208000 (- 44)))))) (CHR '' '')"
    by blast
  then have "slice out 17 23 = ''10.000''"
    unfolding div_500 take_format_10 by simp
  with b have "\<exists>out. loop_body {100} [''DCIR'', ''h1'', ''h2'', ?L] ?st ?L
          = Inr (Continue (?st\<lparr>output_lines := output_lines ?st @ [out]\<rparr>))
        \<and> slice out 17 23 = ''10.000''" by blast
  with h1 h2 h3 h4 h5 h6 h7 h8 show ?thesis by (intro conjI)
qed

subsection \<open>What a line may lose\<close>

text \<open>
  Claim C5 fails on the code. The terminator at position 3 equals the second header line
  at position 2; the output has \<^verbatim>\<open>99999\<close> at position 4 where the input has
  \<^verbatim>\<open>tail line\<close>, a change outside any window on a line that qualifies for none.
\<close>

theorem line_after_terminator_replaced:
  "process_lines [''DCIR'', ''h1'', ''99999'', ''99999'', ''tail line''] {}
   = Inr [''DCIR'', ''h1'', ''99999'', ''99999'', ''99999'', ''tail line'']
   \<and> [''DCIR'', ''h1'', ''99999'', ''99999'', ''99999'', ''tail line''] ! 4 = ''99999''
   \<and> [''DCIR'', ''h1'', ''99999'', ''99999'', ''tail line''] ! 4 = ''tail line''"
  by code_simp

subsection \<open>A window that is not blank\<close>

text \<open>
  Claim C6. For a line met in the data state that is no terminator: a window at 17 that
  is not blank is emitted as it was, whether the line matches or not; on a matching line
  the window at 29 is still recomputed when it is blank and the window at 35 converts;
  and the emitted line, met again in the data state, is emitted unchanged, so a second
  pass leaves a window that was rewritten as it is.
\<close>

theorem nonblank_window_kept:
  assumes "found_dcir st" and "header_lines_remaining st \<le> 0"
    and "\<not> startswith line ''99999''"
  shows "\<exists>out.
      loop_body bar_list_set lines st line
        = Inr (Continue (st\<lparr>output_lines := output_lines st @ [out]\<rparr>))
    \<and> (\<not> is_blank (slice line 17 23) \<longrightarrow> slice out 17 23 = slice line 17 23)
    \<and> (\<forall>bar1 bar2 w.
          42 \<le> length line \<and> line ! 16 = CHR ''T''
          \<and> bar1_of line = Inr bar1 \<and> bar2_of line = Inr bar2
          \<and> (bar1 \<in> bar_list_set \<or> bar2 \<in> bar_list_set)
          \<and> is_blank (slice line 29 35) \<and> py_float (rtrim (slice line 35 41)) = Inr w \<longrightarrow>
          slice out 29 35
            = take 6 (format_6f (div_by_50 w))
              @ replicate (6 - length (take 6 (format_6f (div_by_50 w)))) (CHR '' ''))
    \<and> (\<forall>st2 lines2. found_dcir st2 \<and> header_lines_remaining st2 \<le> 0 \<longrightarrow>
          loop_body bar_list_set lines2 st2 out
            = Inr (Continue (st2\<lparr>output_lines := output_lines st2 @ [out]\<rparr>)))"
proof -
  obtain out where out: "rewrite_line bar_list_set line = Inr out"
    and body: "loop_body bar_list_set lines st line
                 = Inr (Continue (st\<lparr>output_lines := output_lines st @ [out]\<rparr>))"
    using loop_body_data [OF assms] by blast
  let ?q = "42 \<le> length line \<and> line ! 16 = CHR ''T'' \<and> matches bar_list_set line"
  have same: "out = line" if "\<not> ?q"
    using that out rewrite_line_other [of line bar_list_set] by simp
  have a: "slice out 17 23 = slice line 17 23" if "\<not> is_blank (slice line 17 23)"
  proof (cases ?q)
    case True
    then show ?thesis using rewrite_line_slices(1) [of line bar_list_set out] out that
      by (simp add: new_field_def)
  next
    case False
    then show ?thesis using same by simp
  qed
  have b: "slice out 29 35
            = take 6 (format_6f (div_by_50 w))
              @ replicate (6 - length (take 6 (format_6f (div_by_50 w)))) (CHR '' '')"
    if "42 \<le> length line" "line ! 16 = CHR ''T''"
      "bar1_of line = Inr bar1" "bar2_of line = Inr bar2"
      "bar1 \<in> bar_list_set \<or> bar2 \<in> bar_list_set"
      "is_blank (slice line 29 35)" "py_float (rtrim (slice line 35 41)) = Inr w"
    for bar1 bar2 w
  proof -
    have m: "matches bar_list_set line" using matches_bars [OF that(3,4)] that(5) by simp
    show ?thesis
      using rewrite_line_slices(2) [OF that(1,2) m out] that(6,7) by (simp add: new_field_parsed)
  qed
  have nt: "\<not> startswith out ''99999''"
  proof (cases ?q)
    case True
    then have "42 \<le> length line" "line ! 16 = CHR ''T''" "matches bar_list_set line" by simp_all
    from rewrite_line_windows [OF this] out
    have "out = with_windows line (new_field (slice line 17 23) (slice line 23 29))
                  (new_field (slice line 29 35) (slice line 35 41))" by simp
    then have "take 17 out = take 17 line"
      using True by (simp add: with_windows_def)
    from startswith_cong [OF this] assms(3) show ?thesis by simp
  next
    case False
    then show ?thesis using same assms(3) by simp
  qed
  have c: "loop_body bar_list_set lines2 st2 out
            = Inr (Continue (st2\<lparr>output_lines := output_lines st2 @ [out]\<rparr>))"
    if "found_dcir st2" "header_lines_remaining st2 \<le> 0" for st2 lines2
    using loop_data_line [OF that nt rewrite_line_idem [OF out]] .
  show ?thesis
    using body a b c by (intro exI [of _ out]) blast
qed

theorem nonblank_window_kept_witness:
  "found_dcir (data_state [''DCIR'', ''h1'', ''h2''])
   \<and> header_lines_remaining (data_state [''DCIR'', ''h1'', ''h2'']) \<le> 0
   \<and> \<not> startswith ''100             T  2.50   500         250x'' ''99999''
   \<and> (\<exists>out.
        loop_body {100} [''DCIR'', ''h1'', ''h2'', ''100             T  2.50   500         250x'']
          (data_state [''DCIR'', ''h1'', ''h2'']) ''100             T  2.50   500         250x''
          = Inr (Continue ((data_state [''DCIR'', ''h1'', ''h2''])
                   \<lparr>output_lines := output_lines (data_state [''DCIR'', ''h1'', ''h2'']) @ [out]\<rparr>))
        \<and> slice out 17 23 = ''  2.50''
        \<and> loop_body {100} [''DCIR'', ''h1'', ''h2'', out]
            (data_state [''DCIR'', ''h1'', ''h2'']) out
          = Inr (Continue ((data_state [''DCIR'', ''h1'', ''h2''])
                   \<lparr>output_lines := output_lines (data_state [''DCIR'', ''h1'', ''h2'']) @ [out]\<rparr>)))"
proof -
  let ?L = "''100             T  2.50   500         250x''"
  let ?st = "data_state [''DCIR'', ''h1'', ''h2'']"
  have h1: "found_dcir ?st" and h2: "header_lines_remaining ?st \<le> 0"
    by (rule data_state_simps)+
  have h3: "\<not> startswith ?L ''99999''" by code_simp
  have a: "\<not> is_blank (slice ?L 17 23)" by code_simp
  have s: "slice ?L 17 23 = ''  2.50''" by code_simp
  from nonblank_window_kept [OF h1 h2 h3, of "{100}" "[''DCIR'', ''h1'', ''h2'', ?L]"]
  obtain out where
    b: "loop_body {100} [''DCIR'', ''h1'', ''h2'', ?L] ?st ?L
          = Inr (Continue (?st\<lparr>output_lines := output_lines ?st @ [out]\<rparr>))"
    and k: "\<not> is_blank (slice ?L 17 23) \<longrightarrow> slice out 17 23 = slice ?L 17 23"
    and i: "\<forall>st2 lines2. found_dcir st2 \<and> header_lines_remaining st2 \<le> 0 \<longrightarrow>
          loop_body {100} lines2 st2 out
            = Inr (Continue (st2\<lparr>output_lines := output_lines st2 @ [out]\<rparr>))"
    by blast
  from k a s have k': "slice out 17 23 = ''  2.50''" by simp
  from i h1 h2 have i': "loop_body {100} [''DCIR'', ''h1'', ''h2'', out] ?st out
          = Inr (Continue (?st\<lparr>output_lines := output_lines ?st @ [out]\<rparr>))"
    by blast
  from b k' i' have "\<exists>out.
        loop_body {100} [''DCIR'', ''h1'', ''h2'', ?L] ?st ?L
          = Inr (Continue (?st\<lparr>output_lines := output_lines ?st @ [out]\<rparr>))
        \<and> slice out 17 23 = ''  2.50''
        \<and> loop_body {100} [''DCIR'', ''h1'', ''h2'', out] ?st out
          = Inr (Continue (?st\<lparr>output_lines := output_lines ?st @ [out]\<rparr>))"
    by blast
  with h1 h2 h3 show ?thesis by (intro conjI)
qed

subsection \<open>The scenario with target 100\<close>

text \<open>
  Claim C7 as stated fails: a line of the scenario whose window at 29 is blank and whose
  window at 35 holds \<^verbatim>\<open>250\<close> has the window at 29 rewritten as well, so a character
  outside the window at 17 differs from the input.
\<close>

theorem second_window_also_rewritten:
  "42 \<le> length ''100             T         500         250x''
   \<and> slice ''100             T         500         250x'' 0 6 = ''100   ''
   \<and> ''100             T         500         250x'' ! 16 = CHR ''T''
   \<and> slice ''100             T         500         250x'' 17 23 = ''      ''
   \<and> slice ''100             T         500         250x'' 23 29 = ''   500''
   \<and> process_lines [''DCIR'', ''h1'', ''h2'', ''100             T         500         250x''] {100}
       = Inr [''DCIR'', ''h1'', ''h2'', ''100             T10.000   5005.0000   250x'']
   \<and> ''100             T10.000   5005.0000   250x'' ! 29
       \<noteq> ''100             T         500         250x'' ! 29"
proof (intro conjI)
  show "42 \<le> length ''100             T         500         250x''" by simp
  show "slice ''100             T         500         250x'' 0 6 = ''100   ''" by code_simp
  show "''100             T         500         250x'' ! 16 = CHR ''T''" by simp
  show "slice ''100             T         500         250x'' 17 23 = ''      ''" by code_simp
  show "slice ''100             T         500         250x'' 23 29 = ''   500''" by code_simp
  show "process_lines [''DCIR'', ''h1'', ''h2'', ''100             T         500         250x''] {100}
       = Inr [''DCIR'', ''h1'', ''h2'', ''100             T10.000   5005.0000   250x'']"
  proof (rule process_lines_one_data_line [OF _ _ rewrite_example_2])
    show "startswith ''DCIR'' ''DCIR''" by code_simp
    show "\<not> startswith ''100             T         500         250x'' ''99999''" by code_simp
  qed
  show "''100             T10.000   5005.0000   250x'' ! 29
       \<noteq> ''100             T         500         250x'' ! 29" by simp
qed

text \<open>
  Claim C7, amended. With the target set \<open>{100}\<close>, a line met in the data state with at
  least 42 characters, \<^verbatim>\<open>100\<close> and three blanks at offsets 0 to 5, \<^verbatim>\<open>T\<close> at offset 16, six
  blanks at offsets 17 to 22 and three blanks and \<^verbatim>\<open>500\<close> at offsets 23 to 28 is emitted
  with \<^verbatim>\<open>10.000\<close> at offsets 17 to 22 and every character outside the windows at 17 and
  at 29 as in the input; the window at 29 is as in the input too unless it is blank and
  the window at 35 converts to a number.
\<close>

theorem scenario_100_500:
  assumes "found_dcir st" and "header_lines_remaining st \<le> 0"
    and "42 \<le> length line" and "slice line 0 6 = ''100   ''" and "line ! 16 = CHR ''T''"
    and "slice line 17 23 = ''      ''" and "slice line 23 29 = ''   500''"
  shows "\<exists>out.
      loop_body {100} lines st line
        = Inr (Continue (st\<lparr>output_lines := output_lines st @ [out]\<rparr>))
    \<and> length out = length line
    \<and> slice out 17 23 = ''10.000''
    \<and> (\<forall>j<length line. \<not> (17 \<le> j \<and> j < 23) \<and> \<not> (29 \<le> j \<and> j < 35) \<longrightarrow> out ! j = line ! j)
    \<and> (\<not> is_blank (slice line 29 35) \<or> (\<forall>w. py_float (rtrim (slice line 35 41)) \<noteq> Inr w)
          \<longrightarrow> slice out 29 35 = slice line 29 35)"
proof -
  note nt = not_terminator_100 [OF assms(4)]
  obtain out where out: "rewrite_line {100} line = Inr out"
    and body: "loop_body {100} lines st line
                 = Inr (Continue (st\<lparr>output_lines := output_lines st @ [out]\<rparr>))"
    using loop_body_data [OF assms(1,2) nt] by blast
  have m: "matches {100} line"
    by (simp add: matches_def assms(4) int_100 value_or_0_def)
  note s = rewrite_line_slices [OF assms(3,5) m out]
  have a: "slice out 17 23 = ''10.000''"
    using s(1) by (simp add: assms(6,7) new_field_500)
  have b: "slice out 29 35 = slice line 29 35"
    if "\<not> is_blank (slice line 29 35) \<or> (\<forall>w. py_float (rtrim (slice line 35 41)) \<noteq> Inr w)"
    using s(2) that by (cases "py_float (rtrim (slice line 35 41))") (auto simp add: new_field_def)
  show ?thesis
    using body s(3) a s(4) b by (intro exI [of _ out]) blast
qed

theorem scenario_100_500_witness:
  "found_dcir (data_state [''DCIR'', ''h1'', ''h2''])
   \<and> header_lines_remaining (data_state [''DCIR'', ''h1'', ''h2'']) \<le> 0
   \<and> 42 \<le> length ''100             T         500  1.00      x''
   \<and> slice ''100             T         500  1.00      x'' 0 6 = ''100   ''
   \<and> ''100             T         500  1.00      x'' ! 16 = CHR ''T''
   \<and> slice ''100             T         500  1.00      x'' 17 23 = ''      ''
   \<and> slice ''100             T         500  1.00      x'' 23 29 = ''   500''
   \<and> (\<exists>out.
        loop_body {100} [''DCIR'', ''h1'', ''h2'', ''100             T         500  1.00      x'']
          (data_state [''DCIR'', ''h1'', ''h2'']) ''100             T         500  1.00      x''
          = Inr (Continue ((data_state [''DCIR'', ''h1'', ''h2''])
                   \<lparr>output_lines := output_lines (data_state [''DCIR'', ''h1'', ''h2'']) @ [out]\<rparr>))
        \<and> length out = 42
        \<and> slice out 17 23 = ''10.000''
        \<and> out ! 0 = CHR ''1'' \<and> out ! 41 = CHR ''x''
        \<and> slice out 29 35 = ''  1.00'')"
proof -
  let ?L = "''100             T         500  1.00      x''"
  let ?st = "data_state [''DCIR'', ''h1'', ''h2'']"
  have h1: "found_dcir ?st" and h2: "header_lines_remaining ?st \<le> 0"
    by (rule data_state_simps)+
  have h3: "42 \<le> length ?L" by simp
  have h4: "slice ?L 0 6 = ''100   ''" by code_simp
  have h5: "?L ! 16 = CHR ''T''" by simp
  have h6: "slice ?L 17 23 = ''      ''" by code_simp
  have h7: "slice ?L 23 29 = ''   500''" by code_simp
  have nb: "\<not> is_blank (slice ?L 29 35)" by code_simp
  have sb: "slice ?L 29 35 = ''  1.00''" by code_simp
  have len: "length ?L = 42" by simp
  have c0: "?L ! 0 = CHR ''1''" and c41: "?L ! 41 = CHR ''x''" by simp_all
  from scenario_100_500 [OF h1 h2 h3 h4 h5 h6 h7, of "[''DCIR'', ''h1'', ''h2'', ?L]"]
  obtain out where
    b: "loop_body {100} [''DCIR'', ''h1'', ''h2'', ?L] ?st ?L
          = Inr (Continue (?st\<lparr>output_lines := output_lines ?st @ [out]\<rparr>))"
    and l: "length out = length ?L"
    and a: "slice out 17 23 = ''10.000''"
    and f: "\<forall>j<length ?L. \<not> (17 \<le> j \<and> j < 23) \<and> \<not> (29 \<le> j \<and> j < 35) \<longrightarrow> out ! j = ?L ! j"
    and w: "\<not> is_blank (slice ?L 29 35) \<or> (\<forall>w. py_float (rtrim (slice ?L 35 41)) \<noteq> Inr w)
          \<longrightarrow> slice out 29 35 = slice ?L 29 35"
    by blast
  from l len have l': "length out = 42" by simp
  have "(0::nat) < length ?L \<and> \<not> (17 \<le> (0::nat) \<and> (0::nat) < 23) \<and> \<not> (29 \<le> (0::nat) \<and> (0::nat) < 35)"
    unfolding len by simp
  with f have "out ! 0 = ?L ! 0" by blast
  with c0 have o0: "out ! 0 = CHR ''1''" by simp
  have "(41::nat) < length ?L \<and> \<not> (17 \<le> (41::nat) \<and> (41::nat) < 23) \<and> \<not> (29 \<le> (41::nat) \<and> (41::nat) < 35)"
    unfolding len by simp
  with f have "out ! 41 = ?L ! 41" by blast
  with c41 have o41: "out ! 41 = CHR ''x''" by simp
  from w nb sb have b': "slice out 29 35 = ''  1.00''" by simp
  from b l' a o0 o41 b' have "\<exists>out.
        loop_body {100} [''DCIR'', ''h1'', ''h2'', ?L] ?st ?L
          = Inr (Continue (?st\<lparr>output_lines := output_lines ?st @ [out]\<rparr>))
        \<and> length out = 42
        \<and> slice out 17 23 = ''10.000''
        \<and> out ! 0 = CHR ''1'' \<and> out ! 41 = CHR ''x''
        \<and> slice out 29 35 = ''  1.00''"
    by blast
  with h1 h2 h3 h4 h5 h6 h7 show ?thesis by (intro conjI)
qed

subsection \<open>No header\<close>

text \<open>
  Claim C8. When no line of the input starts with \<^verbatim>\<open>DCIR\<close>, the lines that are joined
  are the lines of the input, each one unchanged and in its place, whatever the target
  set is; the text returned is these lines joined by line feeds.
\<close>

theorem no_header_passes_through:
  assumes "list_all (\<lambda>l. \<not> startswith l ''DCIR'') (splitlines input_text)"
  shows "process_lines (splitlines input_text) bar_list_set = Inr (splitlines input_text)
       \<and> process_text_file input_text bar_list_set
           = Inr (join ''\<newline>'' (splitlines input_text))"
  using process_lines_no_header [OF assms] by (simp add: process_text_file_def)

theorem no_header_passes_through_witness:
  "list_all (\<lambda>l. \<not> startswith l ''DCIR'')
     (splitlines ''99999\<newline>100             T         500  1.00      x'')
   \<and> process_text_file ''99999\<newline>100             T         500  1.00      x'' {100}
       = Inr ''99999\<newline>100             T         500  1.00      x''"
proof -
  have h: "list_all (\<lambda>l. \<not> startswith l ''DCIR'')
     (splitlines ''99999\<newline>100             T         500  1.00      x'')"
    by code_simp
  have j: "join ''\<newline>'' (splitlines ''99999\<newline>100             T         500  1.00      x'')
           = ''99999\<newline>100             T         500  1.00      x''"
    by code_simp
  from no_header_passes_through [OF h, of "{100}"] h show ?thesis
    unfolding j by blast
qed

subsection \<open>No exception\<close>

text \<open>
  Claim C9. For every input text and every target set the function returns a text: no
  exception leaves it. The conversions of \<^verbatim>\<open>int\<close> and \<^verbatim>\<open>float\<close> that fail are caught, every
  index that is read or written lies in its line, and the terminator is found by
  \<^verbatim>\<open>index\<close> since it is a line of the input.
\<close>

theorem process_text_file_returns:
  "\<exists>out. process_text_file input_text bar_list_set = Inr out"
proof -
  obtain st where "loop bar_list_set (splitlines input_text) initial_state (splitlines input_text) = Inr st"
    using loop_total [of "splitlines input_text" "splitlines input_text"] by blast
  then show ?thesis by (simp add: process_text_file_def process_lines_def)
qed

theorem process_text_file_returns_witness:
  "\<exists>out. process_text_file ''DCIR\<newline>a\<newline>b\<newline>xx    yy        T   abc   1e5'' {0} = Inr out"
  by (rule process_text_file_returns)

subsection \<open>Where the terminator counts\<close>

text \<open>
  Claim C10. The terminator is looked for in the data state only. Whatever the lines
  before the first \<^verbatim>\<open>DCIR\<close> line and the two lines after it are (lines starting with
  \<^verbatim>\<open>99999\<close> among them), they are emitted unchanged and the loop goes on, in the data
  state, with the lines that follow; there a line that is no terminator is classified
  and rewritten by lines 69 to 134.
\<close>

theorem terminator_only_in_data_state:
  assumes "list_all (\<lambda>l. \<not> startswith l ''DCIR'') pre" and "startswith hdr ''DCIR''"
  shows "process_lines (pre @ hdr # h1 # h2 # rest) bar_list_set
         = bind_err
             (loop bar_list_set (pre @ hdr # h1 # h2 # rest)
                \<lparr>found_dcir = True, processing_data = True, header_lines_remaining = 0,
                 output_lines = pre @ [hdr, h1, h2]\<rparr> rest)
             (\<lambda>st. Inr (output_lines st))
       \<and> (\<forall>line more lines out. \<not> startswith line ''99999'' \<longrightarrow>
            loop bar_list_set lines
              \<lparr>found_dcir = True, processing_data = True, header_lines_remaining = 0,
               output_lines = out\<rparr> (line # more)
            = bind_err (rewrite_line bar_list_set line) (\<lambda>new.
                loop bar_list_set lines
                  \<lparr>found_dcir = True, processing_data = True, header_lines_remaining = 0,
                   output_lines = out @ [new]\<rparr> more))"
proof (intro conjI allI impI)
  show "process_lines (pre @ hdr # h1 # h2 # rest) bar_list_set
         = bind_err
             (loop bar_list_set (pre @ hdr # h1 # h2 # rest)
                \<lparr>found_dcir = True, processing_data = True, header_lines_remaining = 0,
                 output_lines = pre @ [hdr, h1, h2]\<rparr> rest)
             (\<lambda>st. Inr (output_lines st))"
    using process_lines_header [OF assms] by (simp add: data_state_def)
next
  fix line more lines out
  assume n: "\<not> startswith line ''99999''"
  obtain new where new: "rewrite_line bar_list_set line = Inr new"
    using rewrite_line_total by blast
  have "loop_body bar_list_set lines (data_state out) line
        = Inr (Continue ((data_state out)\<lparr>output_lines := output_lines (data_state out) @ [new]\<rparr>))"
    using n new by (intro loop_data_line) (simp_all add: data_state_def)
  then show "loop bar_list_set lines
              \<lparr>found_dcir = True, processing_data = True, header_lines_remaining = 0,
               output_lines = out\<rparr> (line # more)
            = bind_err (rewrite_line bar_list_set line) (\<lambda>new.
                loop bar_list_set lines
                  \<lparr>found_dcir = True, processing_data = True, header_lines_remaining = 0,
                   output_lines = out @ [new]\<rparr> more)"
    by (simp add: new data_state_def)
qed

theorem terminator_only_in_data_state_witness:
  "list_all (\<lambda>l. \<not> startswith l ''DCIR'') [''99999 early'']
   \<and> startswith ''DCIR'' ''DCIR''
   \<and> process_lines
        [''99999 early'', ''DCIR'', ''99999 in header'', ''h2'',
         ''100             T         500  1.00      x'', ''99999'',
         ''100             T         500  1.00      x''] {100}
       = Inr [''99999 early'', ''DCIR'', ''99999 in header'', ''h2'',
              ''100             T10.000   500  1.00      x'', ''99999'',
              ''100             T         500  1.00      x'']"
proof -
  let ?L = "''100             T         500  1.00      x''"
  let ?X = "[''99999 early'', ''DCIR'', ''99999 in header'', ''h2'', ?L, ''99999'', ?L]"
  have a: "list_all (\<lambda>l. \<not> startswith l ''DCIR'') [''99999 early'']" by code_simp
  have b: "startswith ''DCIR'' ''DCIR''" by code_simp
  note t = terminator_only_in_data_state [OF a b, of "''99999 in header''" "''h2''"
      "[?L, ''99999'', ?L]" "{100}", unfolded append.simps]
  have n: "\<not> startswith ?L ''99999''" by code_simp
  have c: "loop {100} ?X
             \<lparr>found_dcir = True, processing_data = True, header_lines_remaining = 0,
              output_lines = [''99999 early'', ''DCIR'', ''99999 in header'', ''h2'',
                              ''100             T10.000   500  1.00      x'']\<rparr>
             [''99999'', ?L]
           = Inr \<lparr>found_dcir = True, processing_data = True, header_lines_remaining = 0,
              output_lines = [''99999 early'', ''DCIR'', ''99999 in header'', ''h2'',
                              ''100             T10.000   500  1.00      x'', ''99999'', ?L]\<rparr>"
    by code_simp
  from t n have "loop {100} ?X
          \<lparr>found_dcir = True, processing_data = True, header_lines_remaining = 0,
           output_lines = [''99999 early'', ''DCIR'', ''99999 in header'', ''h2'']\<rparr>
          [?L, ''99999'', ?L]
        = bind_err (rewrite_line {100} ?L) (\<lambda>new.
            loop {100} ?X
              \<lparr>found_dcir = True, processing_data = True, header_lines_remaining = 0,
               output_lines = [''99999 early'', ''DCIR'', ''99999 in header'', ''h2''] @ [new]\<rparr>
              [''99999'', ?L])"
    by blast
  then have d: "loop {100} ?X
          \<lparr>found_dcir = True, processing_data = True, header_lines_remaining = 0,
           output_lines = [''99999 early'', ''DCIR'', ''99999 in header'', ''h2'']\<rparr>
          [?L, ''99999'', ?L]
        = Inr \<lparr>found_dcir = True, processing_data = True, header_lines_remaining = 0,
              output_lines = [''99999 early'', ''DCIR'', ''99999 in header'', ''h2'',
                              ''100             T10.000   500  1.00      x'', ''99999'', ?L]\<rparr>"
    by (simp only: rewrite_example_1 bind_err_Inr append.simps c)
  from t have "process_lines ?X {100}
       = bind_err (loop {100} ?X
          \<lparr>found_dcir = True, processing_data = True, header_lines_remaining = 0,
           output_lines = [''99999 early'', ''DCIR'', ''99999 in header'', ''h2'']\<rparr>
          [?L, ''99999'', ?L]) (\<lambda>st. Inr (output_lines st))"
    by (rule conjunct1)
  then have "process_lines ?X {100}
       = Inr [''99999 early'', ''DCIR'', ''99999 in header'', ''h2'',
              ''100             T10.000   500  1.00      x'', ''99999'', ?L]"
    unfolding d by simp
  with a b show ?thesis by (intro conjI)
qed

end
